theory Spec2Isabelle
  imports Main
begin

section \<open>Gollum: a WebSocket bridge to a streaming text-generation backend\<close>

text \<open>
  The development follows \<^verbatim>\<open>main.go\<close>: the two structs, the function
  \<^verbatim>\<open>queryOllamaStreaming\<close> with its decode loop, and the read loop of
  \<^verbatim>\<open>handleWebSocket\<close>. The program is single-threaded per connection, so its
  effects are modelled by explicit state passing: the frames handed to the WebSocket
  connection, and the requests and response bodies of the HTTP client.

  Three library calls decide what the program does: \<^verbatim>\<open>conn.ReadJSON\<close>,
  \<^verbatim>\<open>http.Post\<close> and \<^verbatim>\<open>json.Decoder\<close>. The outcomes of the first two are
  inputs of the model. The third is modelled on bytes, after the behaviour of
  \<^verbatim>\<open>encoding/json\<close>, since the program's behaviour on a concrete backend stream
  depends on it.
\<close>

subsection \<open>JSON values\<close>

text \<open>
  A decoded JSON value. A number keeps the text of its literal: the program never
  looks at the value of a number. An object keeps its members in the order of the
  input, duplicates included.
\<close>

datatype jvalue =
    JNull
  | JBool bool
  | JNumber string
  | JString string
  | JArray "jvalue list"
  | JObject "(string \<times> jvalue) list"

subsection \<open>Bytes and UTF-8\<close>

text \<open>Go strings and byte slices are sequences of bytes; a \<^typ>\<open>char\<close> is one byte.\<close>

definition byte :: "char \<Rightarrow> nat" where
  "byte c = of_char c"

definition isSpace :: "char \<Rightarrow> bool" where
  "isSpace c \<longleftrightarrow> c = CHR '' '' \<or> c = CHR 0x09 \<or> c = CHR 0x0D \<or> c = CHR 0x0A"

definition isDigit :: "char \<Rightarrow> bool" where
  "isDigit c \<longleftrightarrow> 0x30 \<le> byte c \<and> byte c \<le> 0x39"

text \<open>The value of a hexadecimal digit, as \<^verbatim>\<open>getu4\<close> reads it.\<close>

definition hexval :: "char \<Rightarrow> nat option" where
  "hexval c =
     (if 0x30 \<le> byte c \<and> byte c \<le> 0x39 then Some (byte c - 0x30)
      else if 0x61 \<le> byte c \<and> byte c \<le> 0x66 then Some (byte c - 0x61 + 10)
      else if 0x41 \<le> byte c \<and> byte c \<le> 0x46 then Some (byte c - 0x41 + 10)
      else None)"

text \<open>
  \<^verbatim>\<open>getu4\<close>: the code point of a \<^verbatim>\<open>\uXXXX\<close> escape at the head of the input,
  if there is one.
\<close>

definition getu4 :: "string \<Rightarrow> nat option" where
  "getu4 s =
     (case s of
        b # u # h1 # h2 # h3 # h4 # _ \<Rightarrow>
          (if b = CHR 0x5C \<and> u = CHR ''u'' then
             (case (hexval h1, hexval h2, hexval h3, hexval h4) of
                (Some a, Some b, Some c, Some d) \<Rightarrow> Some (((a * 16 + b) * 16 + c) * 16 + d)
              | _ \<Rightarrow> None)
           else None)
      | _ \<Rightarrow> None)"

text \<open>
  \<^verbatim>\<open>utf8.AppendRune\<close>: the UTF-8 encoding of a code point; a surrogate or a value
  beyond U+10FFFF is encoded as U+FFFD.
\<close>

definition replacement :: string where
  "replacement = [char_of (0xEF::nat), char_of (0xBF::nat), char_of (0xBD::nat)]"

definition AppendRune :: "nat \<Rightarrow> string" where
  "AppendRune r =
     (if r \<le> 0x7F then [char_of r]
      else if r \<le> 0x7FF then [char_of (0xC0 + r div 64), char_of (0x80 + r mod 64)]
      else if 0x10FFFF < r \<or> (0xD800 \<le> r \<and> r \<le> 0xDFFF) then replacement
      else if r \<le> 0xFFFF then
        [char_of (0xE0 + r div 4096), char_of (0x80 + (r div 64) mod 64),
         char_of (0x80 + r mod 64)]
      else
        [char_of (0xF0 + r div 262144), char_of (0x80 + (r div 4096) mod 64),
         char_of (0x80 + (r div 64) mod 64), char_of (0x80 + r mod 64)])"

text \<open>
  \<^verbatim>\<open>utf8.DecodeRune\<close>, as far as the decoder needs it: the length of the well-formed
  multi-byte encoding at the head of the input, or \<open>None\<close> where Go returns
  \<^verbatim>\<open>(RuneError, 1)\<close>. The ranges are those of the package's table of first bytes.
\<close>

definition cont :: "char \<Rightarrow> bool" where
  "cont c \<longleftrightarrow> 0x80 \<le> byte c \<and> byte c \<le> 0xBF"

definition DecodeRune :: "string \<Rightarrow> nat option" where
  "DecodeRune s =
     (case s of
        [] \<Rightarrow> None
      | c0 # t \<Rightarrow>
          (let x = byte c0;
               sz = (if 0xC2 \<le> x \<and> x \<le> 0xDF then 2
                     else if 0xE0 \<le> x \<and> x \<le> 0xEF then 3
                     else if 0xF0 \<le> x \<and> x \<le> 0xF4 then 4 else 0);
               lo = (if x = 0xE0 then 0xA0 else if x = 0xF0 then 0x90 else 0x80);
               hi = (if x = 0xED then 0x9F else if x = 0xF4 then 0x8F else 0xBF)
           in if sz = 0 \<or> length t < sz - 1 then None
              else if byte (t ! 0) < lo \<or> hi < byte (t ! 0) then None
              else if sz = 2 then Some 2
              else if \<not> cont (t ! 1) then None
              else if sz = 3 then Some 3
              else if \<not> cont (t ! 2) then None
              else Some 4))"

subsection \<open>Tokens\<close>

text \<open>
  The content of a string literal, from after the opening quote. One step reads one
  unit: an escape, an ASCII byte or a multi-byte sequence, and gives the bytes it
  stands for and the rest of the input. \<open>None\<close> is a decode failure: a control
  character, a bad escape, or the end of the input inside the literal.
  A \<^verbatim>\<open>\u\<close> escape of a high surrogate is joined with a following escape of a low
  surrogate; a lone surrogate becomes U+FFFD, as does every byte that does not start a
  well-formed UTF-8 sequence.
\<close>

definition string_unit :: "char \<Rightarrow> string \<Rightarrow> (string \<times> string) option" where
  "string_unit c cs =
     (if c = CHR 0x5C then
        (case cs of
           [] \<Rightarrow> None
         | e # r \<Rightarrow>
             (if e = CHR 0x22 \<or> e = CHR 0x5C \<or> e = CHR ''/'' then Some ([e], r)
              else if e = CHR ''b'' then Some ([CHR 0x08], r)
              else if e = CHR ''f'' then Some ([CHR 0x0C], r)
              else if e = CHR ''n'' then Some ([CHR 0x0A], r)
              else if e = CHR ''r'' then Some ([CHR 0x0D], r)
              else if e = CHR ''t'' then Some ([CHR 0x09], r)
              else if e = CHR ''u'' then
                (case getu4 (c # cs) of
                   None \<Rightarrow> None
                 | Some rr \<Rightarrow>
                     (if 0xD800 \<le> rr \<and> rr < 0xE000 then
                        (case getu4 (drop 5 cs) of
                           Some rr1 \<Rightarrow>
                             (if rr < 0xDC00 \<and> 0xDC00 \<le> rr1 \<and> rr1 < 0xE000 then
                                Some (AppendRune ((rr - 0xD800) * 1024 + (rr1 - 0xDC00) + 0x10000),
                                      drop 11 cs)
                              else Some (replacement, drop 5 cs))
                         | None \<Rightarrow> Some (replacement, drop 5 cs))
                      else Some (AppendRune rr, drop 5 cs)))
              else None))
      else if byte c < 0x20 then None
      else if byte c < 0x80 then Some ([c], cs)
      else
        (case DecodeRune (c # cs) of
           None \<Rightarrow> Some (replacement, cs)
         | Some n \<Rightarrow> Some (take n (c # cs), drop n (c # cs))))"

lemma string_unit_shorter:
  "string_unit c cs = Some (out, rest) \<Longrightarrow> length rest \<le> length cs"
  by (auto simp: string_unit_def DecodeRune_def Let_def
           split: if_splits list.splits option.splits)

function lex_string :: "string \<Rightarrow> (string \<times> string) option" where
  "lex_string [] = None"
| "lex_string (c # cs) =
     (if c = CHR 0x22 then Some ([], cs)
      else
        (case string_unit c cs of
           None \<Rightarrow> None
         | Some (out, rest) \<Rightarrow>
             (case lex_string rest of
                None \<Rightarrow> None
              | Some (s, rest') \<Rightarrow> Some (out @ s, rest'))))"
  by pat_completeness auto
termination
  by (relation "measure length") (auto dest: string_unit_shorter)

text \<open>
  A number literal, read by the states of the scanner (\<^verbatim>\<open>stateNeg\<close>,
  \<^verbatim>\<open>state0\<close>, \<^verbatim>\<open>state1\<close>, \<^verbatim>\<open>stateDot\<close>, \<^verbatim>\<open>stateDot0\<close>,
  \<^verbatim>\<open>stateE\<close>, \<^verbatim>\<open>stateESign\<close>, \<^verbatim>\<open>stateE0\<close>). The literal ends before
  the first byte that cannot continue it, or at the end of the input; it is a failure
  to end in a state that still needs a digit.
\<close>

datatype numstate = NNeg | N0 | N1 | NDot | NDot0 | NE | NESign | NE0

fun lex_number :: "numstate \<Rightarrow> string \<Rightarrow> string \<Rightarrow> (string \<times> string) option" where
  "lex_number st acc [] =
     (if st = N0 \<or> st = N1 \<or> st = NDot0 \<or> st = NE0 then Some (acc, []) else None)"
| "lex_number st acc (c # cs) =
     (case st of
        NNeg \<Rightarrow>
          (if c = CHR ''0'' then lex_number N0 (acc @ [c]) cs
           else if isDigit c then lex_number N1 (acc @ [c]) cs
           else None)
      | N1 \<Rightarrow>
          (if isDigit c then lex_number N1 (acc @ [c]) cs
           else if c = CHR ''.'' then lex_number NDot (acc @ [c]) cs
           else if c = CHR ''e'' \<or> c = CHR ''E'' then lex_number NE (acc @ [c]) cs
           else Some (acc, c # cs))
      | N0 \<Rightarrow>
          (if c = CHR ''.'' then lex_number NDot (acc @ [c]) cs
           else if c = CHR ''e'' \<or> c = CHR ''E'' then lex_number NE (acc @ [c]) cs
           else Some (acc, c # cs))
      | NDot \<Rightarrow> (if isDigit c then lex_number NDot0 (acc @ [c]) cs else None)
      | NDot0 \<Rightarrow>
          (if isDigit c then lex_number NDot0 (acc @ [c]) cs
           else if c = CHR ''e'' \<or> c = CHR ''E'' then lex_number NE (acc @ [c]) cs
           else Some (acc, c # cs))
      | NE \<Rightarrow>
          (if c = CHR ''+'' \<or> c = CHR ''-'' then lex_number NESign (acc @ [c]) cs
           else if isDigit c then lex_number NE0 (acc @ [c]) cs
           else None)
      | NESign \<Rightarrow> (if isDigit c then lex_number NE0 (acc @ [c]) cs else None)
      | NE0 \<Rightarrow>
          (if isDigit c then lex_number NE0 (acc @ [c]) cs else Some (acc, c # cs)))"

text \<open>The rest of a literal name (\<^verbatim>\<open>true\<close>, \<^verbatim>\<open>false\<close>, \<^verbatim>\<open>null\<close>).\<close>

fun lex_name :: "string \<Rightarrow> string \<Rightarrow> string option" where
  "lex_name [] cs = Some cs"
| "lex_name (e # es) [] = None"
| "lex_name (e # es) (c # cs) = (if c = e then lex_name es cs else None)"

datatype token =
    TBeginObject | TEndObject | TBeginArray | TEndArray | TColon | TComma
  | TLiteral jvalue

text \<open>
  The next token and the input after it; white space before a token is skipped.
  \<open>None\<close> is a decode failure: a byte that starts no token, a malformed literal, or
  the end of the input.
\<close>

definition next_token :: "string \<Rightarrow> (token \<times> string) option" where
  "next_token bs =
     (case dropWhile isSpace bs of
        [] \<Rightarrow> None
      | c # cs \<Rightarrow>
          (if c = CHR ''{'' then Some (TBeginObject, cs)
           else if c = CHR ''}'' then Some (TEndObject, cs)
           else if c = CHR ''['' then Some (TBeginArray, cs)
           else if c = CHR '']'' then Some (TEndArray, cs)
           else if c = CHR '':'' then Some (TColon, cs)
           else if c = CHR '','' then Some (TComma, cs)
           else if c = CHR 0x22 then
             map_option (\<lambda>(s, r). (TLiteral (JString s), r)) (lex_string cs)
           else if c = CHR ''-'' then
             map_option (\<lambda>(s, r). (TLiteral (JNumber s), r)) (lex_number NNeg [c] cs)
           else if c = CHR ''0'' then
             map_option (\<lambda>(s, r). (TLiteral (JNumber s), r)) (lex_number N0 [c] cs)
           else if isDigit c then
             map_option (\<lambda>(s, r). (TLiteral (JNumber s), r)) (lex_number N1 [c] cs)
           else if c = CHR ''t'' then
             map_option (\<lambda>r. (TLiteral (JBool True), r)) (lex_name ''rue'' cs)
           else if c = CHR ''f'' then
             map_option (\<lambda>r. (TLiteral (JBool False), r)) (lex_name ''alse'' cs)
           else if c = CHR ''n'' then
             map_option (\<lambda>r. (TLiteral JNull, r)) (lex_name ''ull'' cs)
           else None))"

subsection \<open>Reading one value\<close>

text \<open>
  The scanner keeps a stack of the arrays and objects it is inside
  (\<^verbatim>\<open>parseState\<close>, with the entries \<^verbatim>\<open>parseObjectKey\<close>,
  \<^verbatim>\<open>parseObjectValue\<close> and \<^verbatim>\<open>parseArrayValue\<close>); here an entry also holds
  what has been read of its array or object, and for an object the key read last. The
  position within the grammar is the scanner's step function:
  \<^verbatim>\<open>stateBeginValue\<close>, \<^verbatim>\<open>stateBeginValueOrEmpty\<close>,
  \<^verbatim>\<open>stateBeginStringOrEmpty\<close>, \<^verbatim>\<open>stateBeginString\<close> and
  \<^verbatim>\<open>stateEndValue\<close>.
\<close>

datatype ctx =
    parseObjectKey "(string \<times> jvalue) list" string
  | parseObjectValue "(string \<times> jvalue) list" string
  | parseArrayValue "jvalue list"

datatype pstate =
  BeginValue | BeginValueOrEmpty | BeginStringOrEmpty | BeginString | EndValue

text \<open>
  The result of a step: the top-level value is complete (\<open>Inl\<close>), or the scan goes
  on with a new stack and position (\<open>Inr\<close>); \<open>None\<close> is a syntax error.
\<close>

type_synonym scanned = "(jvalue + ctx list \<times> pstate) option"

definition maxNestingDepth :: nat where
  "maxNestingDepth = 10000"

definition pushParseState :: "ctx \<Rightarrow> ctx list \<Rightarrow> pstate \<Rightarrow> scanned" where
  "pushParseState c st ps =
     (if length (c # st) \<le> maxNestingDepth then Some (Inr (c # st, ps)) else None)"

text \<open>
  A value \<open>v\<close> is complete below the stack \<open>st\<close>: with an empty stack it is the
  top-level value, otherwise it is stored in the array or object on top.
\<close>

definition value_done :: "ctx list \<Rightarrow> jvalue \<Rightarrow> scanned" where
  "value_done st v =
     (case st of
        [] \<Rightarrow> Some (Inl v)
      | parseArrayValue vs # st' \<Rightarrow> Some (Inr (parseArrayValue (vs @ [v]) # st', EndValue))
      | parseObjectValue ms k # st' \<Rightarrow>
          Some (Inr (parseObjectValue (ms @ [(k, v)]) k # st', EndValue))
      | parseObjectKey ms k # st' \<Rightarrow> None)"

definition stateBeginValue :: "ctx list \<Rightarrow> token \<Rightarrow> scanned" where
  "stateBeginValue st t =
     (case t of
        TLiteral v \<Rightarrow> value_done st v
      | TBeginObject \<Rightarrow> pushParseState (parseObjectKey [] []) st BeginStringOrEmpty
      | TBeginArray \<Rightarrow> pushParseState (parseArrayValue []) st BeginValueOrEmpty
      | _ \<Rightarrow> None)"

definition stateBeginString :: "ctx list \<Rightarrow> token \<Rightarrow> scanned" where
  "stateBeginString st t =
     (case (t, st) of
        (TLiteral (JString k), parseObjectKey ms _ # st') \<Rightarrow>
          Some (Inr (parseObjectKey ms k # st', EndValue))
      | _ \<Rightarrow> None)"

definition stateEndValue :: "ctx list \<Rightarrow> token \<Rightarrow> scanned" where
  "stateEndValue st t =
     (case st of
        [] \<Rightarrow> None
      | parseObjectKey ms k # st' \<Rightarrow>
          (if t = TColon then Some (Inr (parseObjectValue ms k # st', BeginValue)) else None)
      | parseObjectValue ms k # st' \<Rightarrow>
          (if t = TComma then Some (Inr (parseObjectKey ms k # st', BeginString))
           else if t = TEndObject then value_done st' (JObject ms)
           else None)
      | parseArrayValue vs # st' \<Rightarrow>
          (if t = TComma then Some (Inr (st, BeginValue))
           else if t = TEndArray then value_done st' (JArray vs)
           else None))"

definition step :: "ctx list \<Rightarrow> pstate \<Rightarrow> token \<Rightarrow> scanned" where
  "step st ps t =
     (case ps of
        BeginValue \<Rightarrow> stateBeginValue st t
      | BeginValueOrEmpty \<Rightarrow>
          (if t = TEndArray then stateEndValue st t else stateBeginValue st t)
      | BeginStringOrEmpty \<Rightarrow>
          (if t = TEndObject then
             (case st of
                parseObjectKey ms k # st' \<Rightarrow> stateEndValue (parseObjectValue ms k # st') t
              | _ \<Rightarrow> None)
           else stateBeginString st t)
      | BeginString \<Rightarrow> stateBeginString st t
      | EndValue \<Rightarrow> stateEndValue st t)"

lemma lex_string_shorter: "lex_string cs = Some (s, rest) \<Longrightarrow> length rest < length cs"
proof (induction cs arbitrary: s rest rule: lex_string.induct)
  case 1
  then show ?case by simp
next
  case (2 c cs)
  show ?case
  proof (cases "c = CHR 0x22")
    case True
    with "2.prems" show ?thesis by auto
  next
    case False
    with "2.prems" obtain out r s' where u: "string_unit c cs = Some (out, r)"
      and l: "lex_string r = Some (s', rest)"
      by (auto split: option.splits)
    from "2.IH" [OF False u refl l] string_unit_shorter [OF u] show ?thesis by simp
  qed
qed

lemma lex_number_shorter: "lex_number st acc cs = Some (s, rest) \<Longrightarrow> length rest \<le> length cs"
proof (induction st acc cs arbitrary: s rest rule: lex_number.induct)
  case (1 st acc)
  then show ?case by (simp split: if_splits)
next
  case (2 st acc c cs)
  then show ?case by (cases st) (auto split: if_splits intro: le_SucI)
qed

lemma lex_name_shorter: "lex_name es cs = Some rest \<Longrightarrow> length rest \<le> length cs"
  by (induction es cs rule: lex_name.induct) (auto split: if_splits)

lemma next_token_shorter: "next_token bs = Some (t, rest) \<Longrightarrow> length rest < length bs"
proof -
  assume a: "next_token bs = Some (t, rest)"
  then obtain c cs where d: "dropWhile isSpace bs = c # cs"
    by (auto simp: next_token_def split: list.splits)
  have "length (dropWhile isSpace bs) \<le> length bs"
    by (rule length_dropWhile_le)
  with d have le: "Suc (length cs) \<le> length bs" by simp
  from a d have "length rest \<le> length cs"
    by (auto simp: next_token_def split: if_splits
             dest: lex_string_shorter lex_number_shorter lex_name_shorter)
  with le show ?thesis by simp
qed

text \<open>
  \<^verbatim>\<open>readValue\<close>: scan tokens until the top-level value is complete. An array or an
  object is complete at its closing bracket; no byte after it is looked at.
\<close>

function scan_value :: "ctx list \<Rightarrow> pstate \<Rightarrow> string \<Rightarrow> (jvalue \<times> string) option" where
  "scan_value st ps bs =
     (case next_token bs of
        None \<Rightarrow> None
      | Some (t, rest) \<Rightarrow>
          (case step st ps t of
             None \<Rightarrow> None
           | Some (Inl v) \<Rightarrow> Some (v, rest)
           | Some (Inr (st', ps')) \<Rightarrow> scan_value st' ps' rest))"
  by pat_completeness auto
termination
  by (relation "measure (\<lambda>(st, ps, bs). length bs)") (auto dest: next_token_shorter)

declare scan_value.simps [simp del]

lemma scan_value_shorter:
  "scan_value st ps bs = Some (v, rest) \<Longrightarrow> length rest < length bs"
proof (induction st ps bs rule: scan_value.induct)
  case (1 st ps bs)
  from "1.prems" obtain t r where nt: "next_token bs = Some (t, r)"
    by (auto simp: scan_value.simps [of st ps bs] split: option.splits)
  note sh = next_token_shorter [OF nt]
  show ?case
  proof (cases "step st ps t")
    case None
    with "1.prems" nt show ?thesis by (simp add: scan_value.simps [of st ps bs])
  next
    case (Some x)
    show ?thesis
    proof (cases x)
      case (Inl w)
      with "1.prems" nt Some sh show ?thesis by (simp add: scan_value.simps [of st ps bs])
    next
      case (Inr p)
      obtain st' ps' where p: "p = (st', ps')" by (cases p)
      from "1.prems" nt Some Inr p have "scan_value st' ps' r = Some (v, rest)"
        by (simp add: scan_value.simps [of st ps bs])
      from "1.IH" [OF nt refl Some Inr p [symmetric] this] sh show ?thesis by simp
    qed
  qed
qed

subsection \<open>The structs of \<^verbatim>\<open>main.go\<close>\<close>

record OllamaRequest =
  Model :: string
  Prompt :: string
  Stream :: bool

record OllamaStreamResponse =
  Response :: string
  Done :: bool

text \<open>
  The errors the program handles. It only tests them against \<^verbatim>\<open>nil\<close> and logs them,
  so every failure of \<^verbatim>\<open>Decode\<close> (a syntax error, an unexpected end of the input, a
  failed read of the body, a value of the wrong type) is the one value \<open>DecodeError\<close>;
  a failure of \<^verbatim>\<open>http.Post\<close> carries its message.
\<close>

datatype error = PostError string | DecodeError

subsection \<open>Decoding into \<^verbatim>\<open>OllamaStreamResponse\<close>\<close>

text \<open>
  A key of a JSON object selects the field whose name it equals when case is ignored.
  \<open>foldName\<close> puts ASCII letters in upper case and maps the two code points outside
  ASCII whose case folding is an ASCII letter, U+017F to \<open>S\<close> and U+212A to \<open>K\<close>. Go
  folds every other code point outside ASCII to some code point outside ASCII; here
  their bytes are kept, which gives the same answer when the result is compared with an
  ASCII name.
\<close>

fun foldName :: "string \<Rightarrow> string" where
  "foldName [] = []"
| "foldName (c # cs) =
     (if byte c < 0x80 then
        (if 0x61 \<le> byte c \<and> byte c \<le> 0x7A then char_of (byte c - 0x20) else c) # foldName cs
      else if byte c = 0xC5 \<and> map byte (take 1 cs) = [0xBF] then
        CHR ''S'' # foldName (drop 1 cs)
      else if byte c = 0xE2 \<and> map byte (take 2 cs) = [0x84, 0xAA] then
        CHR ''K'' # foldName (drop 2 cs)
      else c # foldName cs)"

text \<open>
  One member of the object is stored in the struct. A string goes into
  \<^verbatim>\<open>Response\<close> and a boolean into \<^verbatim>\<open>Done\<close>; \<^verbatim>\<open>null\<close> leaves the field as it
  is; any other value is a type error, which is recorded (the flag) while decoding goes
  on. A member with an unknown key is skipped.
\<close>

definition store_member :: "string \<times> jvalue \<Rightarrow> OllamaStreamResponse \<times> bool
    \<Rightarrow> OllamaStreamResponse \<times> bool" where
  "store_member m = (\<lambda>(v, failed).
     (if foldName (fst m) = ''RESPONSE'' then
        (case snd m of
           JString s \<Rightarrow> (v\<lparr>Response := s\<rparr>, failed)
         | JNull \<Rightarrow> (v, failed)
         | _ \<Rightarrow> (v, True))
      else if foldName (fst m) = ''DONE'' then
        (case snd m of
           JBool b \<Rightarrow> (v\<lparr>Done := b\<rparr>, failed)
         | JNull \<Rightarrow> (v, failed)
         | _ \<Rightarrow> (v, True))
      else (v, failed)))"

text \<open>
  \<^verbatim>\<open>unmarshal\<close> into a fresh struct (the loop declares \<^verbatim>\<open>streamResp\<close> anew in
  every round): an object fills the fields, \<^verbatim>\<open>null\<close> leaves the zero value, and a
  string, number, boolean or array cannot be stored in a struct.
\<close>

definition unmarshal :: "jvalue \<Rightarrow> error + OllamaStreamResponse" where
  "unmarshal j =
     (case j of
        JObject ms \<Rightarrow>
          (case fold store_member ms (\<lparr>Response = [], Done = False\<rparr>, False) of
             (v, failed) \<Rightarrow> if failed then Inl DecodeError else Inr v)
      | JNull \<Rightarrow> Inr \<lparr>Response = [], Done = False\<rparr>
      | _ \<Rightarrow> Inl DecodeError)"

subsection \<open>\<^verbatim>\<open>json.Decoder\<close> on a response body\<close>

text \<open>
  A response body is the bytes the backend sends before the stream ends, and how it
  ends: at \<^verbatim>\<open>io.EOF\<close>, or with a failed read (\<open>broken\<close>), as when the connection
  is reset. The model has no body that goes on for ever.
\<close>

record ResponseBody =
  content :: string
  broken :: bool

text \<open>
  The decoder holds what is left of the body. How the transport splits the bytes into
  reads makes no difference to it: it scans byte by byte and refills as needed.
\<close>

record Decoder =
  buf :: string
  readErr :: bool

definition NewDecoder :: "ResponseBody \<Rightarrow> Decoder" where
  "NewDecoder r = \<lparr>buf = content r, readErr = broken r\<rparr>"

text \<open>
  \<^verbatim>\<open>More\<close> looks at the next byte that is not white space: it is false at the end of
  the input (on \<^verbatim>\<open>io.EOF\<close> and on a failed read alike) and before a closing bracket
  or brace.
\<close>

definition More :: "Decoder \<Rightarrow> bool" where
  "More dec =
     (case dropWhile isSpace (buf dec) of
        [] \<Rightarrow> False
      | c # _ \<Rightarrow> c \<noteq> CHR '']'' \<and> c \<noteq> CHR ''}'')"

text \<open>
  \<^verbatim>\<open>Decode\<close> reads the next value and stores it. A literal that ends with the input
  is complete only if the input ends at \<^verbatim>\<open>io.EOF\<close>; an array or an object is
  complete at its closing bracket.
\<close>

definition is_literal :: "jvalue \<Rightarrow> bool" where
  "is_literal j = (case j of JArray _ \<Rightarrow> False | JObject _ \<Rightarrow> False | _ \<Rightarrow> True)"

definition Decode :: "Decoder \<Rightarrow> (error + OllamaStreamResponse) \<times> Decoder" where
  "Decode dec =
     (case scan_value [] BeginValue (buf dec) of
        None \<Rightarrow> (Inl DecodeError, dec)
      | Some (j, rest) \<Rightarrow>
          (if rest = [] \<and> readErr dec \<and> is_literal j then (Inl DecodeError, dec)
           else (unmarshal j, dec\<lparr>buf := rest\<rparr>)))"

lemma Decode_shorter:
  "Decode dec = (Inr v, dec') \<Longrightarrow> length (buf dec') < length (buf dec)"
proof -
  assume a: "Decode dec = (Inr v, dec')"
  then obtain j rest where sc: "scan_value [] BeginValue (buf dec) = Some (j, rest)"
    by (auto simp: Decode_def split: option.splits)
  with a have "buf dec' = rest"
    by (auto simp: Decode_def split: if_splits)
  with scan_value_shorter [OF sc] show ?thesis by simp
qed

subsection \<open>\<^verbatim>\<open>queryOllamaStreaming\<close>\<close>

text \<open>
  The loop \<^verbatim>\<open>for decoder.More() { ... }\<close>. The callback acts on a state \<open>'s\<close> of
  the caller. The loop returns the error (\<open>None\<close> is \<^verbatim>\<open>nil\<close>), the decoder as it
  was left, and the caller's state. The pause between two rounds has no effect here.
\<close>

function stream_loop :: "Decoder \<Rightarrow> (string \<Rightarrow> bool \<Rightarrow> 's \<Rightarrow> 's) \<Rightarrow> 's
    \<Rightarrow> error option \<times> Decoder \<times> 's" where
  "stream_loop decoder callback s =
     (if More decoder then
        (case Decode decoder of
           (Inl err, decoder') \<Rightarrow> (Some err, decoder', s)
         | (Inr streamResp, decoder') \<Rightarrow>
             (let s' = callback (Response streamResp) (Done streamResp) s
              in if Done streamResp then (None, decoder', s')
                 else stream_loop decoder' callback s'))
      else (None, decoder, s))"
  by pat_completeness auto
termination
  by (relation "measure (\<lambda>(decoder, callback, s). length (buf decoder))")
     (auto dest: Decode_shorter [OF sym])

declare stream_loop.simps [simp del]

text \<open>
  \<^verbatim>\<open>http.Post\<close>. Its outcome is an input of the model: the backend answers the
  \<open>i\<close>-th request of the process either with a failure to speak HTTP (connection
  refused, DNS failure) or with a response. A response of any status is a response:
  \<^verbatim>\<open>http.Post\<close> returns no error for a status outside 2xx.
  The state of the HTTP client records the requests sent and counts the response bodies
  handed out and the bodies closed.
\<close>

record http_Response =
  StatusCode :: nat
  Body :: ResponseBody

datatype post_result = Refused string | Responded http_Response

type_synonym backend = "nat \<Rightarrow> OllamaRequest \<Rightarrow> post_result"

record Net =
  posted :: "OllamaRequest list"
  opened :: nat
  released :: nat

definition http_Post :: "backend \<Rightarrow> OllamaRequest \<Rightarrow> Net \<Rightarrow> (error + http_Response) \<times> Net" where
  "http_Post bk req net =
     (case bk (length (posted net)) req of
        Refused m \<Rightarrow> (Inl (PostError m), net\<lparr>posted := posted net @ [req]\<rparr>)
      | Responded resp \<Rightarrow>
          (Inr resp, net\<lparr>posted := posted net @ [req], opened := opened net + 1\<rparr>))"

definition Body_Close :: "Net \<Rightarrow> Net" where
  "Body_Close net = net\<lparr>released := released net + 1\<rparr>"

text \<open>
  \<^verbatim>\<open>queryOllamaStreaming\<close>. \<^verbatim>\<open>json.Marshal\<close> cannot fail on a struct of two
  strings and a boolean, so its error branch is not a case of the model; the request is
  passed to the backend as the struct. The deferred \<^verbatim>\<open>resp.Body.Close()\<close> runs
  when the function returns after a successful \<^verbatim>\<open>http.Post\<close>.
\<close>

definition queryOllamaStreaming :: "backend \<Rightarrow> string \<Rightarrow> (string \<Rightarrow> bool \<Rightarrow> 's \<Rightarrow> 's)
    \<Rightarrow> Net \<times> 's \<Rightarrow> error option \<times> Net \<times> 's" where
  "queryOllamaStreaming bk prompt callback = (\<lambda>(net, s).
     (let reqBody = \<lparr>Model = ''llama2'', Prompt = prompt, Stream = True\<rparr>
      in case http_Post bk reqBody net of
           (Inl err, net') \<Rightarrow> (Some err, net', s)
         | (Inr resp, net') \<Rightarrow>
             (case stream_loop (NewDecoder (Body resp)) callback s of
                (err, decoder, s') \<Rightarrow> (err, Body_Close net', s'))))"

subsection \<open>\<^verbatim>\<open>handleWebSocket\<close>\<close>

text \<open>
  The three frames the server writes: \<^verbatim>\<open>{"type": "response_start"}\<close>,
  \<^verbatim>\<open>{"type": "response_chunk", "content": chunk}\<close> and
  \<^verbatim>\<open>{"type": "response_end"}\<close>.
\<close>

datatype OutboundFrame = response_start | response_chunk string | response_end

text \<open>
  The connection: the frames passed to \<^verbatim>\<open>conn.WriteJSON\<close>, in order, and whether
  \<^verbatim>\<open>conn.Close\<close> has run. The program discards the error of every
  \<^verbatim>\<open>WriteJSON\<close>, so a failed write changes nothing in what it does next.
\<close>

record Conn =
  sent :: "OutboundFrame list"
  closed :: bool

definition WriteJSON :: "OutboundFrame \<Rightarrow> Conn \<Rightarrow> Conn" where
  "WriteJSON f conn = conn\<lparr>sent := sent conn @ [f]\<rparr>"

definition Close :: "Conn \<Rightarrow> Conn" where
  "Close conn = conn\<lparr>closed := True\<rparr>"

text \<open>
  The outcome of one \<^verbatim>\<open>conn.ReadJSON(&msg)\<close> is an input of the model: an error
  (a payload that does not decode into a map, or a failure of the transport), or the
  decoded \<^verbatim>\<open>map[string]interface{}\<close>. A value of the map is a decoded JSON value.
\<close>

datatype read_result = ReadErr | ReadOk "string \<rightharpoonup> jvalue"

definition error_text :: string where
  "error_text = ''Sorry, I encountered an error processing your request.''"

text \<open>The function literal that \<^verbatim>\<open>handleWebSocket\<close> passes as the callback.\<close>

definition forward :: "string \<Rightarrow> bool \<Rightarrow> Conn \<Rightarrow> Conn" where
  "forward chunk done conn =
     (if \<not> done then WriteJSON (response_chunk chunk) conn
      else WriteJSON response_end conn)"

text \<open>
  \<^verbatim>\<open>userMessage, _ := msg["content"].(string)\<close>: the string, or the empty string
  when the key is absent or its value is no string.
\<close>

definition userMessage :: "(string \<rightharpoonup> jvalue) \<Rightarrow> string" where
  "userMessage msg = (case msg ''content'' of Some (JString s) \<Rightarrow> s | _ \<Rightarrow> [])"

text \<open>The body of \<^verbatim>\<open>case "message"\<close>.\<close>

definition on_message :: "backend \<Rightarrow> (string \<rightharpoonup> jvalue) \<Rightarrow> Net \<times> Conn \<Rightarrow> Net \<times> Conn" where
  "on_message bk msg = (\<lambda>(net, conn).
     (case queryOllamaStreaming bk (userMessage msg) forward (net, WriteJSON response_start conn) of
        (None, net', conn') \<Rightarrow> (net', conn')
      | (Some err, net', conn') \<Rightarrow>
          (net', WriteJSON response_end (WriteJSON (response_chunk error_text) conn'))))"

text \<open>
  \<^verbatim>\<open>switch msg["type"]\<close>: the case \<^verbatim>\<open>"message"\<close> is taken when the value is the
  string \<^verbatim>\<open>message\<close>; an absent key gives \<^verbatim>\<open>nil\<close> and the default case.
\<close>

definition dispatch :: "backend \<Rightarrow> (string \<rightharpoonup> jvalue) \<Rightarrow> Net \<times> Conn \<Rightarrow> Net \<times> Conn" where
  "dispatch bk msg st =
     (if msg ''type'' = Some (JString ''message'') then on_message bk msg st else st)"

text \<open>
  The loop \<^verbatim>\<open>for { ... }\<close> over the outcomes of \<^verbatim>\<open>ReadJSON\<close>. The flag of the
  result tells whether the loop was left (by \<^verbatim>\<open>break\<close>); with no further outcome the
  loop is still waiting in \<^verbatim>\<open>ReadJSON\<close>.
\<close>

fun read_loop :: "backend \<Rightarrow> read_result list \<Rightarrow> Net \<times> Conn \<Rightarrow> bool \<times> Net \<times> Conn" where
  "read_loop bk [] st = (False, st)"
| "read_loop bk (ReadErr # rs) st = (True, st)"
| "read_loop bk (ReadOk msg # rs) st = read_loop bk rs (dispatch bk msg st)"

text \<open>
  \<^verbatim>\<open>handleWebSocket\<close>: when the upgrade fails there is no connection; otherwise
  the loop runs on a new connection, and the deferred \<^verbatim>\<open>conn.Close()\<close> runs when
  the function returns.
\<close>

definition handleWebSocket :: "backend \<Rightarrow> bool \<Rightarrow> read_result list \<Rightarrow> Net \<Rightarrow> Net \<times> Conn option" where
  "handleWebSocket bk upgraded reads net =
     (if \<not> upgraded then (net, None)
      else
        (case read_loop bk reads (net, \<lparr>sent = [], closed = False\<rparr>) of
           (True, net', conn) \<Rightarrow> (net', Some (Close conn))
         | (False, net', conn) \<Rightarrow> (net', Some conn)))"

subsection \<open>The sequence a decoder yields\<close>

text \<open>
  The values a decoder yields when \<^verbatim>\<open>More\<close> and \<^verbatim>\<open>Decode\<close> are called in turn:
  the fragments in the order of the stream, up to the end of the input or the first
  failure of \<^verbatim>\<open>Decode\<close>, which ends the sequence. It continues past a fragment with
  \<^verbatim>\<open>done=true\<close>; where the program stops is a matter of its loop.
\<close>

function fragments :: "Decoder \<Rightarrow> (error + OllamaStreamResponse) list" where
  "fragments dec =
     (if More dec then
        (case Decode dec of
           (Inl err, dec') \<Rightarrow> [Inl err]
         | (Inr v, dec') \<Rightarrow> Inr v # fragments dec')
      else [])"
  by pat_completeness auto
termination
  by (relation "measure (\<lambda>dec. length (buf dec))") (auto dest: Decode_shorter [OF sym])

declare fragments.simps [simp del]

text \<open>
  What one call of the backend yields: the failure of \<^verbatim>\<open>http.Post\<close>, or the
  sequence of the response body.
\<close>

definition call_yields :: "post_result \<Rightarrow> (error + OllamaStreamResponse) list" where
  "call_yields r =
     (case r of
        Refused m \<Rightarrow> [Inl (PostError m)]
      | Responded resp \<Rightarrow> fragments (NewDecoder (Body resp)))"

text \<open>The request that \<^verbatim>\<open>queryOllamaStreaming\<close> builds for a prompt.\<close>

definition request_for :: "string \<Rightarrow> OllamaRequest" where
  "request_for prompt = \<lparr>Model = ''llama2'', Prompt = prompt, Stream = True\<rparr>"

text \<open>The state of the HTTP client after a call with the outcome \<open>r\<close>.\<close>

definition net_after :: "post_result \<Rightarrow> OllamaRequest \<Rightarrow> Net \<Rightarrow> Net" where
  "net_after r req net =
     (case r of
        Refused m \<Rightarrow> net\<lparr>posted := posted net @ [req]\<rparr>
      | Responded resp \<Rightarrow>
          net\<lparr>posted := posted net @ [req], opened := opened net + 1,
              released := released net + 1\<rparr>)"

subsection \<open>Example runs\<close>

text \<open>A callback that records its calls, to observe what the loop delivers.\<close>

definition log_call :: "string \<Rightarrow> bool \<Rightarrow> (string \<times> bool) list \<Rightarrow> (string \<times> bool) list" where
  "log_call chunk done tr = tr @ [(chunk, done)]"

definition net0 :: Net where
  "net0 = \<lparr>posted = [], opened = 0, released = 0\<rparr>"

definition conn0 :: Conn where
  "conn0 = \<lparr>sent = [], closed = False\<rparr>"

definition ok_body :: "string \<Rightarrow> post_result" where
  "ok_body s = Responded \<lparr>StatusCode = 200, Body = \<lparr>content = s, broken = False\<rparr>\<rparr>"

definition prompt_msg :: "string \<Rightarrow> string \<rightharpoonup> jvalue" where
  "prompt_msg p = [''type'' \<mapsto> JString ''message'', ''content'' \<mapsto> JString p]"

text \<open>The stream of the two objects \<^verbatim>\<open>("A", false)\<close> and \<^verbatim>\<open>("B", true)\<close>.\<close>

definition stream_AB :: string where
  \<open>stream_AB = ''{"response":"A","done":false}{"response":"B","done":true}''\<close>

text \<open>The fragments \<^verbatim>\<open>Hel\<close> and \<^verbatim>\<open>lo\<close>, then the final object with empty text.\<close>

definition stream_Hello :: string where
  \<open>stream_Hello =
     ''{"response":"Hel","done":false}{"response":"lo","done":false}{"response":"","done":true}''\<close>

text \<open>A stream that ends after one fragment, with no final object.\<close>

definition stream_cut :: string where
  \<open>stream_cut = ''{"response":"Hi","done":false}''\<close>

text \<open>A stream whose second object is cut off in the middle.\<close>

definition stream_bad :: string where
  \<open>stream_bad = ''{"response":"A","done":false}{"response":"B"''\<close>

text \<open>
  The backend's answer for a model that is not installed: status 404 and one object
  with the key \<^verbatim>\<open>error\<close>.
\<close>

definition resp_404 :: http_Response where
  \<open>resp_404 =
     \<lparr>StatusCode = 404,
      Body = \<lparr>content = ''{"error":"model 'llama2' not found, try pulling it first"}'',
              broken = False\<rparr>\<rparr>\<close>

definition backend_404 :: backend where
  "backend_404 i req = Responded resp_404"

definition backend_cut :: backend where
  "backend_cut i req = ok_body stream_cut"

definition backend_refused :: backend where
  "backend_refused i req = Refused ''connection refused''"

definition backend_Hello :: backend where
  "backend_Hello i req = ok_body stream_Hello"

text \<open>As \<open>stream_Hello\<close>, but the final object carries the text \<^verbatim>\<open>!\<close>.\<close>

definition stream_Hello_bang :: string where
  \<open>stream_Hello_bang =
     ''{"response":"Hel","done":false}{"response":"lo","done":false}{"response":"!","done":true}''\<close>

definition backend_Hello_bang :: backend where
  "backend_Hello_bang i req = ok_body stream_Hello_bang"

definition backend_AB :: backend where
  "backend_AB i req = ok_body stream_AB"

definition backend_bad :: backend where
  "backend_bad i req = ok_body stream_bad"

text \<open>The first call is refused, every later call answers with \<open>stream_AB\<close>.\<close>

definition backend_flaky :: backend where
  "backend_flaky i req = (if i = 0 then Refused ''connection refused'' else ok_body stream_AB)"

text \<open>The first call breaks in the middle of the stream, later calls answer in full.\<close>

definition backend_garbled :: backend where
  "backend_garbled i req = (if i = 0 then ok_body stream_bad else ok_body stream_Hello)"

section \<open>Properties\<close>

subsection \<open>The loop and the sequence of the decoder\<close>

lemma fragments_Nil: "fragments dec = [] \<Longrightarrow> \<not> More dec"
  by (subst (asm) fragments.simps) (auto split: if_splits prod.splits sum.splits)

lemma fragments_Inr:
  "fragments dec = Inr v # r \<Longrightarrow> More dec \<and> (\<exists>dec'. Decode dec = (Inr v, dec') \<and> fragments dec' = r)"
  by (subst (asm) fragments.simps) (auto split: if_splits prod.splits sum.splits)

lemma fragments_Inl:
  "fragments dec = Inl e # r \<Longrightarrow> More dec \<and> (\<exists>dec'. Decode dec = (Inl e, dec'))"
  by (subst (asm) fragments.simps) (auto split: if_splits prod.splits sum.splits)

lemma stream_loop_prefix:
  "fragments dec = map Inr fs @ r \<Longrightarrow> \<forall>f\<in>set fs. \<not> Done f \<Longrightarrow>
   \<exists>dec'. fragments dec' = r \<and>
     stream_loop dec cb s = stream_loop dec' cb (fold (\<lambda>f. cb (Response f) False) fs s)"
proof (induction fs arbitrary: dec s)
  case Nil
  then show ?case by auto
next
  case (Cons f fs)
  from Cons.prems(1) have fr: "fragments dec = Inr f # (map Inr fs @ r)" by simp
  from fragments_Inr [OF fr] obtain dec1 where m: "More dec"
    and d: "Decode dec = (Inr f, dec1)" and f1: "fragments dec1 = map Inr fs @ r" by blast
  from Cons.prems(2) have nd: "\<not> Done f" and rest: "\<forall>f\<in>set fs. \<not> Done f" by simp_all
  from Cons.IH [OF f1 rest, of "cb (Response f) False s"] obtain dec' where
    r: "fragments dec' = r" and
    e: "stream_loop dec1 cb (cb (Response f) False s) =
        stream_loop dec' cb (fold (\<lambda>f. cb (Response f) False) fs (cb (Response f) False s))"
    by blast
  have "stream_loop dec cb s = stream_loop dec1 cb (cb (Response f) False s)"
    using m d nd by (subst stream_loop.simps) simp
  with r e show ?case by auto
qed

lemma stream_loop_exhausted:
  assumes "fragments dec = map Inr fs" and "\<forall>f\<in>set fs. \<not> Done f"
  shows "\<exists>dec'. stream_loop dec cb s = (None, dec', fold (\<lambda>f. cb (Response f) False) fs s)"
proof -
  from assms(1) have "fragments dec = map Inr fs @ []" by simp
  from stream_loop_prefix [OF this assms(2), of cb s] obtain dec' where
    n: "fragments dec' = []" and
    e: "stream_loop dec cb s = stream_loop dec' cb (fold (\<lambda>f. cb (Response f) False) fs s)"
    by blast
  from fragments_Nil [OF n] have "stream_loop dec' cb (fold (\<lambda>f. cb (Response f) False) fs s)
      = (None, dec', fold (\<lambda>f. cb (Response f) False) fs s)"
    by (subst stream_loop.simps) simp
  with e show ?thesis by auto
qed

lemma stream_loop_failed:
  assumes "fragments dec = map Inr fs @ Inl err # r" and "\<forall>f\<in>set fs. \<not> Done f"
  shows "\<exists>dec'. stream_loop dec cb s = (Some err, dec', fold (\<lambda>f. cb (Response f) False) fs s)"
proof -
  from stream_loop_prefix [OF assms, of cb s] obtain dec' where
    n: "fragments dec' = Inl err # r" and
    e: "stream_loop dec cb s = stream_loop dec' cb (fold (\<lambda>f. cb (Response f) False) fs s)"
    by blast
  from fragments_Inl [OF n] obtain d where "More dec'" and "Decode dec' = (Inl err, d)" by blast
  then have "stream_loop dec' cb (fold (\<lambda>f. cb (Response f) False) fs s)
      = (Some err, d, fold (\<lambda>f. cb (Response f) False) fs s)"
    by (subst stream_loop.simps) simp
  with e show ?thesis by auto
qed

lemma stream_loop_done:
  assumes "fragments dec = map Inr fs @ Inr v # r" and "\<forall>f\<in>set fs. \<not> Done f" and "Done v"
  shows "\<exists>dec'. stream_loop dec cb s =
    (None, dec', cb (Response v) True (fold (\<lambda>f. cb (Response f) False) fs s))"
proof -
  from stream_loop_prefix [OF assms(1,2), of cb s] obtain dec' where
    n: "fragments dec' = Inr v # r" and
    e: "stream_loop dec cb s = stream_loop dec' cb (fold (\<lambda>f. cb (Response f) False) fs s)"
    by blast
  from fragments_Inr [OF n] obtain d where "More dec'" and "Decode dec' = (Inr v, d)" by blast
  with assms(3) have "stream_loop dec' cb (fold (\<lambda>f. cb (Response f) False) fs s)
      = (None, d, cb (Response v) True (fold (\<lambda>f. cb (Response f) False) fs s))"
    by (subst stream_loop.simps) simp
  with e show ?thesis by auto
qed

lemma fold_forward:
  "fold (\<lambda>f. forward (Response f) False) fs conn =
   conn\<lparr>sent := sent conn @ map (\<lambda>f. response_chunk (Response f)) fs\<rparr>"
  by (induction fs arbitrary: conn) (simp_all add: forward_def WriteJSON_def)

subsection \<open>One call of the backend\<close>

lemma stream_loop_Some:
  "stream_loop dec cb s = (Some err, dec', s') \<Longrightarrow>
   \<exists>fs. fragments dec = map Inr fs @ [Inl err] \<and> (\<forall>f\<in>set fs. \<not> Done f)"
proof (induction dec cb s rule: stream_loop.induct)
  case (1 decoder callback s)
  from "1.prems" have m: "More decoder"
    by (subst (asm) stream_loop.simps) (simp split: if_splits)
  obtain x d1 where d: "Decode decoder = (x, d1)" by (cases "Decode decoder")
  show ?case
  proof (cases x)
    case (Inl e)
    with "1.prems" m d have "e = err"
      by (subst (asm) stream_loop.simps) simp
    with m d Inl have "fragments decoder = map Inr [] @ [Inl err]"
      by (subst fragments.simps) simp
    then show ?thesis by (intro exI [of _ "[]"]) simp
  next
    case (Inr v)
    with "1.prems" m d have nd: "\<not> Done v"
      by (subst (asm) stream_loop.simps) (auto simp: Let_def split: if_splits)
    with "1.prems" m d Inr
    have r: "stream_loop d1 callback (callback (Response v) (Done v) s) = (Some err, dec', s')"
      by (subst (asm) stream_loop.simps) (simp add: Let_def)
    from "1.IH" [OF m d [symmetric] Inr refl nd r] obtain fs where
      f: "fragments d1 = map Inr fs @ [Inl err]" and n: "\<forall>f\<in>set fs. \<not> Done f" by blast
    from m d Inr f have "fragments decoder = map Inr (v # fs) @ [Inl err]"
      by (subst fragments.simps) simp
    with n nd show ?thesis by (intro exI [of _ "v # fs"]) simp
  qed
qed

lemma query_Refused:
  "bk (length (posted net)) (request_for prompt) = Refused m \<Longrightarrow>
   queryOllamaStreaming bk prompt cb (net, s) =
     (Some (PostError m), net\<lparr>posted := posted net @ [request_for prompt]\<rparr>, s)"
  by (simp add: queryOllamaStreaming_def http_Post_def request_for_def)

lemma query_Responded:
  "bk (length (posted net)) (request_for prompt) = Responded resp \<Longrightarrow>
   queryOllamaStreaming bk prompt cb (net, s) =
     (case stream_loop (NewDecoder (Body resp)) cb s of
        (err, decoder, s') \<Rightarrow>
          (err, net_after (Responded resp) (request_for prompt) net, s'))"
  by (simp add: queryOllamaStreaming_def http_Post_def request_for_def net_after_def
                Body_Close_def split: prod.splits)

lemma query_failed:
  assumes "call_yields (bk (length (posted net)) (request_for prompt)) = map Inr fs @ [Inl err]"
    and "\<forall>f\<in>set fs. \<not> Done f"
  shows "queryOllamaStreaming bk prompt cb (net, s) =
     (Some err, net_after (bk (length (posted net)) (request_for prompt)) (request_for prompt) net,
      fold (\<lambda>f. cb (Response f) False) fs s)"
proof (cases "bk (length (posted net)) (request_for prompt)")
  case (Refused m)
  with assms(1) have "map Inr fs @ [Inl err] = [Inl (PostError m)]"
    by (simp add: call_yields_def)
  then have "fs = []" and "err = PostError m"
    by (cases fs; simp)+
  with Refused show ?thesis
    by (simp add: query_Refused net_after_def)
next
  case (Responded resp)
  with assms(1) have "fragments (NewDecoder (Body resp)) = map Inr fs @ Inl err # []"
    by (simp add: call_yields_def)
  from stream_loop_failed [OF this assms(2), of cb s] Responded show ?thesis
    by (auto simp: query_Responded)
qed

lemma query_exhausted:
  assumes "call_yields (bk (length (posted net)) (request_for prompt)) = map Inr fs"
    and "\<forall>f\<in>set fs. \<not> Done f"
  shows "queryOllamaStreaming bk prompt cb (net, s) =
     (None, net_after (bk (length (posted net)) (request_for prompt)) (request_for prompt) net,
      fold (\<lambda>f. cb (Response f) False) fs s)"
proof (cases "bk (length (posted net)) (request_for prompt)")
  case (Refused m)
  with assms(1) have "map Inr fs = [Inl (PostError m)]"
    by (simp add: call_yields_def)
  then have False by (cases fs) auto
  then show ?thesis ..
next
  case (Responded resp)
  with assms(1) have "fragments (NewDecoder (Body resp)) = map Inr fs"
    by (simp add: call_yields_def)
  from stream_loop_exhausted [OF this assms(2), of cb s] Responded show ?thesis
    by (auto simp: query_Responded)
qed

lemma query_done:
  assumes "call_yields (bk (length (posted net)) (request_for prompt)) = map Inr fs @ Inr v # r"
    and "\<forall>f\<in>set fs. \<not> Done f" and "Done v"
  shows "queryOllamaStreaming bk prompt cb (net, s) =
     (None, net_after (bk (length (posted net)) (request_for prompt)) (request_for prompt) net,
      cb (Response v) True (fold (\<lambda>f. cb (Response f) False) fs s))"
proof (cases "bk (length (posted net)) (request_for prompt)")
  case (Refused m)
  with assms(1) have "map Inr fs @ Inr v # r = [Inl (PostError m)]"
    by (simp add: call_yields_def)
  then have False by (cases fs) auto
  then show ?thesis ..
next
  case (Responded resp)
  with assms(1) have "fragments (NewDecoder (Body resp)) = map Inr fs @ Inr v # r"
    by (simp add: call_yields_def)
  from stream_loop_done [OF this assms(2,3), of cb s] Responded show ?thesis
    by (auto simp: query_Responded)
qed

lemma query_Some:
  assumes "queryOllamaStreaming bk prompt cb (net, s) = (Some err, net', s')"
  shows "\<exists>fs. call_yields (bk (length (posted net)) (request_for prompt)) = map Inr fs @ [Inl err]
     \<and> (\<forall>f\<in>set fs. \<not> Done f)"
proof (cases "bk (length (posted net)) (request_for prompt)")
  case (Refused m)
  with assms have "err = PostError m" by (simp add: query_Refused)
  with Refused have "call_yields (bk (length (posted net)) (request_for prompt)) = map Inr [] @ [Inl err]"
    by (simp add: call_yields_def)
  then show ?thesis by (intro exI [of _ "[]"]) simp
next
  case (Responded resp)
  obtain e d t where sl: "stream_loop (NewDecoder (Body resp)) cb s = (e, d, t)"
    by (cases "stream_loop (NewDecoder (Body resp)) cb s")
  with assms Responded have "e = Some err" by (simp add: query_Responded)
  with sl stream_loop_Some [of "NewDecoder (Body resp)" cb s err d t] Responded
  show ?thesis by (simp add: call_yields_def)
qed

subsection \<open>The session\<close>

lemma dispatch_message:
  "msg ''type'' = Some (JString ''message'') \<Longrightarrow> dispatch bk msg st = on_message bk msg st"
  by (simp add: dispatch_def)

lemma read_loop_prefix:
  "read_loop bk (map ReadOk msgs @ rs) st =
   read_loop bk rs (snd (read_loop bk (map ReadOk msgs) st))"
  by (induction msgs arbitrary: st) simp_all

lemma stream_loop_appends:
  "cb = forward \<Longrightarrow> stream_loop dec cb conn = (e, d, conn') \<Longrightarrow>
   \<exists>frames. conn' = conn\<lparr>sent := sent conn @ frames\<rparr>"
proof (induction dec cb conn rule: stream_loop.induct)
  case (1 decoder callback s)
  note cb = \<open>callback = forward\<close>
  note run = \<open>stream_loop decoder callback s = (e, d, conn')\<close>
  show ?case
  proof (cases "More decoder")
    case False
    with run have "conn' = s"
      by (subst (asm) stream_loop.simps) simp
    then show ?thesis by (intro exI [of _ "[]"]) simp
  next
    case True
    obtain x d1 where dd: "Decode decoder = (x, d1)" by (cases "Decode decoder")
    show ?thesis
    proof (cases x)
      case (Inl err)
      with run True dd have "conn' = s"
        by (subst (asm) stream_loop.simps) simp
      then show ?thesis by (intro exI [of _ "[]"]) simp
    next
      case (Inr v)
      show ?thesis
      proof (cases "Done v")
        case True
        with run cb \<open>More decoder\<close> dd Inr have "conn' = forward (Response v) True s"
          by (subst (asm) stream_loop.simps) (simp add: Let_def)
        then show ?thesis
          by (intro exI [of _ "[response_end]"]) (simp add: forward_def WriteJSON_def)
      next
        case False
        with run \<open>More decoder\<close> dd Inr
        have r: "stream_loop d1 callback (callback (Response v) (Done v) s) = (e, d, conn')"
          by (subst (asm) stream_loop.simps) (simp add: Let_def)
        from "1.IH" [OF \<open>More decoder\<close> dd [symmetric] Inr refl False cb r] cb
        obtain frames where
          "conn' = (forward (Response v) (Done v) s)
             \<lparr>sent := sent (forward (Response v) (Done v) s) @ frames\<rparr>" by blast
        with False show ?thesis
          by (intro exI [of _ "response_chunk (Response v) # frames"])
             (simp add: forward_def WriteJSON_def)
      qed
    qed
  qed
qed

lemma query_forward_appends:
  assumes "queryOllamaStreaming bk prompt forward (net, conn) = (e, net', conn')"
  shows "posted net' = posted net @ [request_for prompt] \<and>
     (\<exists>frames. conn' = conn\<lparr>sent := sent conn @ frames\<rparr>)"
proof (cases "bk (length (posted net)) (request_for prompt)")
  case (Refused m)
  with assms have "net' = net\<lparr>posted := posted net @ [request_for prompt]\<rparr>" and "conn' = conn"
    by (simp_all add: query_Refused)
  then show ?thesis by (auto intro: exI [of _ "[]"])
next
  case (Responded resp)
  obtain e1 d t where sl: "stream_loop (NewDecoder (Body resp)) forward conn = (e1, d, t)"
    by (cases "stream_loop (NewDecoder (Body resp)) forward conn")
  with assms Responded have "net' = net_after (Responded resp) (request_for prompt) net"
    and "conn' = t"
    by (simp_all add: query_Responded)
  with stream_loop_appends [OF refl sl] show ?thesis
    by (simp add: net_after_def)
qed

lemma on_message_appends:
  "posted (fst (on_message bk msg (net, conn))) = posted net @ [request_for (userMessage msg)] \<and>
   (\<exists>frames. sent (snd (on_message bk msg (net, conn))) = sent conn @ response_start # frames)"
proof -
  obtain e net' conn' where
    q: "queryOllamaStreaming bk (userMessage msg) forward (net, WriteJSON response_start conn) =
        (e, net', conn')"
    by (cases "queryOllamaStreaming bk (userMessage msg) forward (net, WriteJSON response_start conn)")
  from query_forward_appends [OF q] obtain frames where
    p: "posted net' = posted net @ [request_for (userMessage msg)]" and
    c: "conn' = (WriteJSON response_start conn)\<lparr>sent := sent (WriteJSON response_start conn) @ frames\<rparr>"
    by blast
  show ?thesis
  proof (cases e)
    case None
    with q p c show ?thesis by (simp add: on_message_def WriteJSON_def)
  next
    case (Some err)
    with q p c show ?thesis by (simp add: on_message_def WriteJSON_def)
  qed
qed

text \<open>
  A frame of type \<^verbatim>\<open>message\<close> whose \<^verbatim>\<open>content\<close> is absent or no string is handled
  exactly as a message with the empty string as content: \<^verbatim>\<open>response_start\<close> is
  written and the backend gets a request with the empty prompt. What follows the start
  frame depends on the call of the backend, as for every prompt.
\<close>

lemma missing_content_is_empty_prompt:
  assumes "msg ''type'' = Some (JString ''message'')"
    and "\<forall>s. msg ''content'' \<noteq> Some (JString s)"
  shows "userMessage msg = [] \<and>
    dispatch bk msg (net, conn) = dispatch bk (prompt_msg []) (net, conn) \<and>
    posted (fst (dispatch bk msg (net, conn))) = posted net @ [request_for []] \<and>
    (\<exists>frames. sent (snd (dispatch bk msg (net, conn))) = sent conn @ response_start # frames)"
proof -
  from assms(2) have u: "userMessage msg = []"
    by (auto simp: userMessage_def split: option.splits jvalue.splits)
  have u': "userMessage (prompt_msg []) = []"
    by (simp add: userMessage_def prompt_msg_def)
  have t': "prompt_msg [] ''type'' = Some (JString ''message'')"
    by (simp add: prompt_msg_def)
  from assms(1) have d: "dispatch bk msg (net, conn) = on_message bk msg (net, conn)"
    by (rule dispatch_message)
  from u u' have "on_message bk msg (net, conn) = on_message bk (prompt_msg []) (net, conn)"
    by (simp add: on_message_def)
  with d dispatch_message [where msg = "prompt_msg []" and bk = bk and st = "(net, conn)", OF t']
  have e: "dispatch bk msg (net, conn) = dispatch bk (prompt_msg []) (net, conn)" by simp
  from on_message_appends [of bk msg net conn] d u show ?thesis
    using e by simp
qed

subsection \<open>Decoding the two objects of \<open>stream_AB\<close>\<close>

lemma scan_object_A:
  \<open>scan_value [] BeginValue (''{"response":"A","done":false}'' @ sfx) =
     Some (JObject [(''response'', JString ''A''), (''done'', JBool False)], sfx)\<close>
  by (simp add: scan_value.simps next_token_def step_def stateBeginValue_def
        stateBeginString_def stateEndValue_def value_done_def pushParseState_def
        maxNestingDepth_def isSpace_def string_unit_def byte_def isDigit_def)

lemma scan_object_B:
  \<open>scan_value [] BeginValue (''{"response":"B","done":true}'' @ sfx) =
     Some (JObject [(''response'', JString ''B''), (''done'', JBool True)], sfx)\<close>
  by (simp add: scan_value.simps next_token_def step_def stateBeginValue_def
        stateBeginString_def stateEndValue_def value_done_def pushParseState_def
        maxNestingDepth_def isSpace_def string_unit_def byte_def isDigit_def)

lemma unmarshal_A:
  "unmarshal (JObject [(''response'', JString ''A''), (''done'', JBool False)]) =
     Inr \<lparr>Response = ''A'', Done = False\<rparr>"
  by code_simp

lemma unmarshal_B:
  "unmarshal (JObject [(''response'', JString ''B''), (''done'', JBool True)]) =
     Inr \<lparr>Response = ''B'', Done = True\<rparr>"
  by code_simp

lemma Decode_object_A:
  \<open>Decode \<lparr>buf = ''{"response":"A","done":false}'' @ sfx, readErr = b\<rparr> =
     (Inr \<lparr>Response = ''A'', Done = False\<rparr>, \<lparr>buf = sfx, readErr = b\<rparr>)\<close>
  using scan_object_A [of sfx] by (simp add: Decode_def unmarshal_A is_literal_def)

lemma Decode_object_B:
  \<open>Decode \<lparr>buf = ''{"response":"B","done":true}'' @ sfx, readErr = b\<rparr> =
     (Inr \<lparr>Response = ''B'', Done = True\<rparr>, \<lparr>buf = sfx, readErr = b\<rparr>)\<close>
  using scan_object_B [of sfx] by (simp add: Decode_def unmarshal_B is_literal_def)

lemma More_object:
  "More \<lparr>buf = CHR ''{'' # bs, readErr = b\<rparr>"
  by (simp add: More_def isSpace_def)

section \<open>The claims\<close>

text \<open>
  C1. The claim: for every prompt the outbound frames are one \<^verbatim>\<open>response_start\<close>,
  the chunks in the order of the backend, and one \<^verbatim>\<open>response_end\<close>. The program
  does not do this when the body of the response ends with no object that has
  \<^verbatim>\<open>done=true\<close>: for the stream \<open>stream_cut\<close>, one fragment \<^verbatim>\<open>Hi\<close> and then the
  end of the body, the session writes \<^verbatim>\<open>response_start\<close> and the chunk, and no
  \<^verbatim>\<open>response_end\<close> follows before the connection is closed.
\<close>

theorem C1_no_response_end_when_stream_is_cut:
  "handleWebSocket backend_cut True [ReadOk (prompt_msg ''hi''), ReadErr] net0 =
     (\<lparr>posted = [\<lparr>Model = ''llama2'', Prompt = ''hi'', Stream = True\<rparr>], opened = 1, released = 1\<rparr>,
      Some \<lparr>sent = [response_start, response_chunk ''Hi''], closed = True\<rparr>)"
  by code_simp

text \<open>
  C2. The claim: when the request fails to open (connection refused, DNS failure, or a
  status that is not a success), \<^verbatim>\<open>queryOllamaStreaming\<close> returns that error at once
  and never calls the callback. This fails for a status: \<^verbatim>\<open>http.Post\<close> returns a
  response of status 404 without an error, the program decodes its body, calls the
  callback once with the empty text of the object, and returns \<^verbatim>\<open>nil\<close>.
\<close>

theorem C2_status_404_is_decoded:
  "StatusCode resp_404 = 404 \<and>
   backend_404 0 (request_for ''hi'') = Responded resp_404 \<and>
   queryOllamaStreaming backend_404 ''hi'' log_call (net0, []) =
     (None,
      \<lparr>posted = [\<lparr>Model = ''llama2'', Prompt = ''hi'', Stream = True\<rparr>], opened = 1, released = 1\<rparr>,
      [([], False)])"
  by code_simp

text \<open>
  C2, amended: when \<^verbatim>\<open>http.Post\<close> returns an error (connection refused, DNS
  failure, any failure to speak HTTP), \<^verbatim>\<open>queryOllamaStreaming\<close> returns that error
  at once; the callback is never called, whatever it is: the state of the caller is
  returned as it was passed.
\<close>

theorem C2_post_error_returned:
  assumes "bk (length (posted net)) (request_for prompt) = Refused m"
  shows "queryOllamaStreaming bk prompt callback (net, s) =
     (Some (PostError m), net\<lparr>posted := posted net @ [request_for prompt]\<rparr>, s)"
  using assms by (simp add: queryOllamaStreaming_def http_Post_def request_for_def)

theorem C2_post_error_returned_witness:
  "backend_refused (length (posted net0)) (request_for ''hi'') = Refused ''connection refused'' \<and>
   queryOllamaStreaming backend_refused ''hi'' log_call (net0, []) =
     (Some (PostError ''connection refused''),
      \<lparr>posted = [\<lparr>Model = ''llama2'', Prompt = ''hi'', Stream = True\<rparr>], opened = 0, released = 0\<rparr>,
      [])"
proof -
  have h: "backend_refused (length (posted net0)) (request_for ''hi'') = Refused ''connection refused''"
    by (simp add: backend_refused_def)
  from C2_post_error_returned [where bk = backend_refused and net = net0 and prompt = "''hi''"
      and callback = log_call and s = "[]", OF h] h
  show ?thesis
    by (simp add: net0_def request_for_def)
qed

text \<open>
  C3. When the call of the backend fails, at the opening of the request or in the
  middle of the stream, that is when \<^verbatim>\<open>queryOllamaStreaming\<close> returns an error to the
  session: what the call yielded is some fragments, none with \<^verbatim>\<open>done=true\<close>, and
  then the error; the frames written up to the failure are \<^verbatim>\<open>response_start\<close> and
  the chunks of those fragments, and they stay as they are; the session adds one
  chunk with the fixed error text and one \<^verbatim>\<open>response_end\<close>, and the read loop goes
  on with the next inbound frame.
\<close>

theorem C3_backend_failure_reported:
  assumes "msg ''type'' = Some (JString ''message'')"
    and "queryOllamaStreaming bk (userMessage msg) forward (net, WriteJSON response_start conn) =
           (Some err, net', conn')"
  shows "\<exists>fs.
      call_yields (bk (length (posted net)) (request_for (userMessage msg))) = map Inr fs @ [Inl err] \<and>
      conn' = conn\<lparr>sent := sent conn @ response_start # map (\<lambda>f. response_chunk (Response f)) fs\<rparr> \<and>
      read_loop bk (ReadOk msg # rest) (net, conn) =
        read_loop bk rest
          (net', conn'\<lparr>sent := sent conn' @ [response_chunk error_text, response_end]\<rparr>)"
proof -
  from query_Some [OF assms(2)] obtain fs where
    y: "call_yields (bk (length (posted net)) (request_for (userMessage msg))) = map Inr fs @ [Inl err]"
    and nd: "\<forall>f\<in>set fs. \<not> Done f" by blast
  from query_failed [where bk = bk and net = net and prompt = "userMessage msg" and cb = forward
      and s = "WriteJSON response_start conn", OF y nd] assms(2)
  have c: "conn' = fold (\<lambda>f. forward (Response f) False) fs (WriteJSON response_start conn)"
    by simp
  then have c': "conn' = conn\<lparr>sent := sent conn @ response_start # map (\<lambda>f. response_chunk (Response f)) fs\<rparr>"
    by (simp add: fold_forward WriteJSON_def)
  from assms have "dispatch bk msg (net, conn) =
      (net', conn'\<lparr>sent := sent conn' @ [response_chunk error_text, response_end]\<rparr>)"
    by (simp add: dispatch_message on_message_def WriteJSON_def)
  then have "read_loop bk (ReadOk msg # rest) (net, conn) =
        read_loop bk rest
          (net', conn'\<lparr>sent := sent conn' @ [response_chunk error_text, response_end]\<rparr>)"
    by simp
  with y c' show ?thesis by blast
qed

theorem C3_backend_failure_reported_witness:
  "prompt_msg ''hi'' ''type'' = Some (JString ''message'') \<and>
   queryOllamaStreaming backend_garbled (userMessage (prompt_msg ''hi'')) forward
       (net0, WriteJSON response_start conn0) =
     (Some DecodeError,
      \<lparr>posted = [\<lparr>Model = ''llama2'', Prompt = ''hi'', Stream = True\<rparr>], opened = 1, released = 1\<rparr>,
      \<lparr>sent = [response_start, response_chunk ''A''], closed = False\<rparr>) \<and>
   read_loop backend_garbled [ReadOk (prompt_msg ''hi''), ReadOk (prompt_msg ''again'')] (net0, conn0) =
     (False,
      \<lparr>posted = [\<lparr>Model = ''llama2'', Prompt = ''hi'', Stream = True\<rparr>,
                 \<lparr>Model = ''llama2'', Prompt = ''again'', Stream = True\<rparr>],
         opened = 2, released = 2\<rparr>,
      \<lparr>sent = [response_start, response_chunk ''A'', response_chunk error_text, response_end,
                response_start, response_chunk ''Hel'', response_chunk ''lo'', response_end],
         closed = False\<rparr>)"
proof -
  let ?net1 = "\<lparr>posted = [\<lparr>Model = ''llama2'', Prompt = ''hi'', Stream = True\<rparr>],
                  opened = 1, released = 1\<rparr>"
  let ?conn1 = "\<lparr>sent = [response_start, response_chunk ''A''], closed = False\<rparr>"
  have h1: "prompt_msg ''hi'' ''type'' = Some (JString ''message'')"
    by (simp add: prompt_msg_def)
  have h2: "queryOllamaStreaming backend_garbled (userMessage (prompt_msg ''hi'')) forward
       (net0, WriteJSON response_start conn0) = (Some DecodeError, ?net1, ?conn1)"
    by code_simp
  have h3: "read_loop backend_garbled [ReadOk (prompt_msg ''again'')]
       (?net1, ?conn1\<lparr>sent := sent ?conn1 @ [response_chunk error_text, response_end]\<rparr>) =
     (False,
      \<lparr>posted = [\<lparr>Model = ''llama2'', Prompt = ''hi'', Stream = True\<rparr>,
                 \<lparr>Model = ''llama2'', Prompt = ''again'', Stream = True\<rparr>],
         opened = 2, released = 2\<rparr>,
      \<lparr>sent = [response_start, response_chunk ''A'', response_chunk error_text, response_end,
                response_start, response_chunk ''Hel'', response_chunk ''lo'', response_end],
         closed = False\<rparr>)"
    by code_simp
  from C3_backend_failure_reported [where msg = "prompt_msg ''hi''" and bk = backend_garbled
      and net = net0 and conn = conn0 and rest = "[ReadOk (prompt_msg ''again'')]", OF h1 h2]
  have "read_loop backend_garbled [ReadOk (prompt_msg ''hi''), ReadOk (prompt_msg ''again'')]
        (net0, conn0) =
      read_loop backend_garbled [ReadOk (prompt_msg ''again'')]
       (?net1, ?conn1\<lparr>sent := sent ?conn1 @ [response_chunk error_text, response_end]\<rparr>)"
    by blast
  with h1 h2 h3 show ?thesis by simp
qed

text \<open>
  C4. When the body of the response is exhausted and no decoded fragment has
  \<^verbatim>\<open>done=true\<close>, \<^verbatim>\<open>queryOllamaStreaming\<close> returns \<^verbatim>\<open>nil\<close> after the last
  forwarded fragment, and the session writes \<^verbatim>\<open>response_start\<close> and the forwarded
  chunks and nothing after them: no \<^verbatim>\<open>response_end\<close> and no error chunk.
\<close>

theorem C4_exhausted_stream_has_no_end:
  assumes "msg ''type'' = Some (JString ''message'')"
    and "bk (length (posted net)) (request_for (userMessage msg)) = Responded resp"
    and "fragments (NewDecoder (Body resp)) = map Inr fs"
    and "\<forall>f\<in>set fs. \<not> Done f"
  shows "queryOllamaStreaming bk (userMessage msg) forward (net, WriteJSON response_start conn) =
      (None, net_after (Responded resp) (request_for (userMessage msg)) net,
       conn\<lparr>sent := sent conn @ response_start # map (\<lambda>f. response_chunk (Response f)) fs\<rparr>) \<and>
    dispatch bk msg (net, conn) =
      (net_after (Responded resp) (request_for (userMessage msg)) net,
       conn\<lparr>sent := sent conn @ response_start # map (\<lambda>f. response_chunk (Response f)) fs\<rparr>)"
proof -
  from assms(2,3) have
    y: "call_yields (bk (length (posted net)) (request_for (userMessage msg))) = map Inr fs"
    by (simp add: call_yields_def)
  from query_exhausted [where bk = bk and net = net and prompt = "userMessage msg" and cb = forward
      and s = "WriteJSON response_start conn", OF y assms(4)] assms(2)
  have q: "queryOllamaStreaming bk (userMessage msg) forward (net, WriteJSON response_start conn) =
      (None, net_after (Responded resp) (request_for (userMessage msg)) net,
       conn\<lparr>sent := sent conn @ response_start # map (\<lambda>f. response_chunk (Response f)) fs\<rparr>)"
    by (simp add: fold_forward WriteJSON_def)
  with assms(1) show ?thesis
    by (simp add: dispatch_message on_message_def)
qed

theorem C4_exhausted_stream_has_no_end_witness:
  "prompt_msg ''hi'' ''type'' = Some (JString ''message'') \<and>
   fragments (NewDecoder \<lparr>content = stream_cut, broken = False\<rparr>) =
     map Inr [\<lparr>Response = ''Hi'', Done = False\<rparr>] \<and>
   queryOllamaStreaming backend_cut ''hi'' forward (net0, WriteJSON response_start conn0) =
     (None,
      \<lparr>posted = [\<lparr>Model = ''llama2'', Prompt = ''hi'', Stream = True\<rparr>], opened = 1, released = 1\<rparr>,
      \<lparr>sent = [response_start, response_chunk ''Hi''], closed = False\<rparr>) \<and>
   dispatch backend_cut (prompt_msg ''hi'') (net0, conn0) =
     (\<lparr>posted = [\<lparr>Model = ''llama2'', Prompt = ''hi'', Stream = True\<rparr>], opened = 1, released = 1\<rparr>,
      \<lparr>sent = [response_start, response_chunk ''Hi''], closed = False\<rparr>)"
proof -
  let ?resp = "\<lparr>StatusCode = 200, Body = \<lparr>content = stream_cut, broken = False\<rparr>\<rparr>"
  have h1: "prompt_msg ''hi'' ''type'' = Some (JString ''message'')"
    by (simp add: prompt_msg_def)
  have u: "userMessage (prompt_msg ''hi'') = ''hi''"
    by (simp add: userMessage_def prompt_msg_def)
  have h2: "backend_cut (length (posted net0)) (request_for (userMessage (prompt_msg ''hi''))) =
      Responded ?resp"
    by (simp add: backend_cut_def ok_body_def)
  have h3: "fragments (NewDecoder (Body ?resp)) = map Inr [\<lparr>Response = ''Hi'', Done = False\<rparr>]"
    by code_simp
  have h4: "\<forall>f\<in>set [\<lparr>Response = ''Hi'', Done = False\<rparr>]. \<not> Done f"
    by simp
  from C4_exhausted_stream_has_no_end [where msg = "prompt_msg ''hi''" and bk = backend_cut
      and net = net0 and conn = conn0, OF h1 h2 h3 h4] h1 h3 u
  show ?thesis
    by (simp add: net_after_def net0_def conn0_def request_for_def)
qed

text \<open>
  C5. The text of the fragment with \<^verbatim>\<open>done=true\<close> is never forwarded: when the call
  yields fragments without \<^verbatim>\<open>done\<close> and then a fragment with \<^verbatim>\<open>done=true\<close> and
  any text \<open>t\<close>, the session writes \<^verbatim>\<open>response_start\<close>, the chunks of the earlier
  fragments and \<^verbatim>\<open>response_end\<close>. For the stream \<^verbatim>\<open>Hel\<close>, \<^verbatim>\<open>lo\<close>, final object
  with empty text, the client receives \<^verbatim>\<open>response_start\<close>, \<^verbatim>\<open>Hel\<close>, \<^verbatim>\<open>lo\<close>,
  \<^verbatim>\<open>response_end\<close>; the same frames are written for the stream whose final object
  has the text \<^verbatim>\<open>!\<close>.
\<close>

theorem C5_final_text_not_forwarded:
  assumes "msg ''type'' = Some (JString ''message'')"
    and "call_yields (bk (length (posted net)) (request_for (userMessage msg))) =
           map Inr fs @ Inr \<lparr>Response = t, Done = True\<rparr> # later"
    and "\<forall>f\<in>set fs. \<not> Done f"
  shows "dispatch bk msg (net, conn) =
      (net_after (bk (length (posted net)) (request_for (userMessage msg)))
         (request_for (userMessage msg)) net,
       conn\<lparr>sent := sent conn @ response_start # map (\<lambda>f. response_chunk (Response f)) fs
                       @ [response_end]\<rparr>)"
proof -
  from query_done [where bk = bk and net = net and prompt = "userMessage msg" and cb = forward
      and s = "WriteJSON response_start conn", OF assms(2,3)]
  have "queryOllamaStreaming bk (userMessage msg) forward (net, WriteJSON response_start conn) =
      (None, net_after (bk (length (posted net)) (request_for (userMessage msg)))
         (request_for (userMessage msg)) net,
       conn\<lparr>sent := sent conn @ response_start # map (\<lambda>f. response_chunk (Response f)) fs
                       @ [response_end]\<rparr>)"
    by (simp add: fold_forward WriteJSON_def forward_def)
  with assms(1) show ?thesis
    by (simp add: dispatch_message on_message_def)
qed

theorem C5_final_text_not_forwarded_witness:
  "call_yields (backend_Hello 0 (request_for ''hi'')) =
     map Inr [\<lparr>Response = ''Hel'', Done = False\<rparr>, \<lparr>Response = ''lo'', Done = False\<rparr>]
       @ Inr \<lparr>Response = [], Done = True\<rparr> # [] \<and>
   dispatch backend_Hello (prompt_msg ''hi'') (net0, conn0) =
     (\<lparr>posted = [\<lparr>Model = ''llama2'', Prompt = ''hi'', Stream = True\<rparr>], opened = 1, released = 1\<rparr>,
      \<lparr>sent = [response_start, response_chunk ''Hel'', response_chunk ''lo'', response_end],
         closed = False\<rparr>) \<and>
   call_yields (backend_Hello_bang 0 (request_for ''hi'')) =
     map Inr [\<lparr>Response = ''Hel'', Done = False\<rparr>, \<lparr>Response = ''lo'', Done = False\<rparr>]
       @ Inr \<lparr>Response = ''!'', Done = True\<rparr> # [] \<and>
   dispatch backend_Hello_bang (prompt_msg ''hi'') (net0, conn0) =
     (\<lparr>posted = [\<lparr>Model = ''llama2'', Prompt = ''hi'', Stream = True\<rparr>], opened = 1, released = 1\<rparr>,
      \<lparr>sent = [response_start, response_chunk ''Hel'', response_chunk ''lo'', response_end],
         closed = False\<rparr>)"
proof -
  let ?fs = "[\<lparr>Response = ''Hel'', Done = False\<rparr>, \<lparr>Response = ''lo'', Done = False\<rparr>]"
  have h1: "prompt_msg ''hi'' ''type'' = Some (JString ''message'')"
    by (simp add: prompt_msg_def)
  have u: "userMessage (prompt_msg ''hi'') = ''hi''"
    by (simp add: userMessage_def prompt_msg_def)
  have p: "length (posted net0) = 0"
    by (simp add: net0_def)
  have y: "call_yields (backend_Hello 0 (request_for ''hi'')) =
      map Inr ?fs @ Inr \<lparr>Response = [], Done = True\<rparr> # []"
    by code_simp
  have y': "call_yields (backend_Hello_bang 0 (request_for ''hi'')) =
      map Inr ?fs @ Inr \<lparr>Response = ''!'', Done = True\<rparr> # []"
    by code_simp
  have nd: "\<forall>f\<in>set ?fs. \<not> Done f"
    by simp
  from y u p have a: "call_yields (backend_Hello (length (posted net0))
      (request_for (userMessage (prompt_msg ''hi'')))) =
      map Inr ?fs @ Inr \<lparr>Response = [], Done = True\<rparr> # []" by simp
  from y' u p have a': "call_yields (backend_Hello_bang (length (posted net0))
      (request_for (userMessage (prompt_msg ''hi'')))) =
      map Inr ?fs @ Inr \<lparr>Response = ''!'', Done = True\<rparr> # []" by simp
  from C5_final_text_not_forwarded [where msg = "prompt_msg ''hi''" and bk = backend_Hello
      and net = net0 and conn = conn0, OF h1 a nd]
  have d: "dispatch backend_Hello (prompt_msg ''hi'') (net0, conn0) =
     (\<lparr>posted = [\<lparr>Model = ''llama2'', Prompt = ''hi'', Stream = True\<rparr>], opened = 1, released = 1\<rparr>,
      \<lparr>sent = [response_start, response_chunk ''Hel'', response_chunk ''lo'', response_end],
         closed = False\<rparr>)"
    by (simp add: u p backend_Hello_def ok_body_def net_after_def net0_def conn0_def request_for_def)
  from C5_final_text_not_forwarded [where msg = "prompt_msg ''hi''" and bk = backend_Hello_bang
      and net = net0 and conn = conn0, OF h1 a' nd]
  have d': "dispatch backend_Hello_bang (prompt_msg ''hi'') (net0, conn0) =
     (\<lparr>posted = [\<lparr>Model = ''llama2'', Prompt = ''hi'', Stream = True\<rparr>], opened = 1, released = 1\<rparr>,
      \<lparr>sent = [response_start, response_chunk ''Hel'', response_chunk ''lo'', response_end],
         closed = False\<rparr>)"
    by (simp add: u p backend_Hello_bang_def ok_body_def net_after_def net0_def conn0_def request_for_def)
  from y y' d d' show ?thesis by simp
qed

text \<open>
  C6. Decoding the bytes \<^verbatim>\<open>{"response":"A","done":false}{"response":"B","done":true}\<close>
  delivers the two fragments \<^verbatim>\<open>("A", false)\<close> and \<^verbatim>\<open>("B", true)\<close> to the callback,
  in this order, and the loop stops at the second object: whatever bytes \<open>sfx\<close> follow
  it are left in the decoder, and no further fragment is delivered.
\<close>

theorem C6_two_objects_then_stop:
  "stream_loop (NewDecoder \<lparr>content = stream_AB @ sfx, broken = b\<rparr>) log_call tr =
     (None, \<lparr>buf = sfx, readErr = b\<rparr>, tr @ [(''A'', False), (''B'', True)])"
proof -
  let ?B = \<open>''{"response":"B","done":true}''\<close>
  have two: "stream_loop \<lparr>buf = ?B @ sfx, readErr = b\<rparr> log_call (tr @ [(''A'', False)]) =
      (None, \<lparr>buf = sfx, readErr = b\<rparr>, tr @ [(''A'', False), (''B'', True)])"
    using Decode_object_B [of sfx b]
    by (subst stream_loop.simps) (simp add: More_object log_call_def)
  have "stream_loop \<lparr>buf = stream_AB @ sfx, readErr = b\<rparr> log_call tr =
      stream_loop \<lparr>buf = ?B @ sfx, readErr = b\<rparr> log_call (tr @ [(''A'', False)])"
    using Decode_object_A [of "?B @ sfx" b]
    by (subst stream_loop.simps) (simp add: stream_AB_def More_object log_call_def)
  with two show ?thesis by (simp add: NewDecoder_def)
qed

theorem C6_two_objects_then_stop_witness:
  \<open>stream_loop (NewDecoder \<lparr>content = stream_AB, broken = False\<rparr>) log_call [] =
     (None, \<lparr>buf = [], readErr = False\<rparr>, [(''A'', False), (''B'', True)]) \<and>
   stream_loop (NewDecoder \<lparr>content = stream_AB @ ''{"response":"C","done":false} x'',
       broken = False\<rparr>) log_call [] =
     (None, \<lparr>buf = ''{"response":"C","done":false} x'', readErr = False\<rparr>,
      [(''A'', False), (''B'', True)])\<close>
  using C6_two_objects_then_stop [of "[]" False "[]"]
    C6_two_objects_then_stop [of \<open>''{"response":"C","done":false} x''\<close> False "[]"]
  by simp

text \<open>
  C7. An inbound frame whose \<^verbatim>\<open>type\<close> is not the string \<^verbatim>\<open>message\<close> (another
  string, a value that is no string, or no \<^verbatim>\<open>type\<close> at all) leaves the state of the
  session as it is, so no frame is written, and the loop goes on with the inbound
  frames that follow.
\<close>

theorem C7_other_types_ignored:
  assumes "msg ''type'' \<noteq> Some (JString ''message'')"
  shows "read_loop bk (ReadOk msg # rest) st = read_loop bk rest st"
  using assms by (simp add: dispatch_def)

theorem C7_other_types_ignored_witness:
  "[''type'' \<mapsto> JString ''ping''] ''type'' \<noteq> Some (JString ''message'') \<and>
   (Map.empty :: string \<rightharpoonup> jvalue) ''type'' \<noteq> Some (JString ''message'') \<and>
   [''type'' \<mapsto> JNumber ''1'', ''content'' \<mapsto> JString ''x''] ''type'' \<noteq> Some (JString ''message'') \<and>
   read_loop backend_Hello
     [ReadOk [''type'' \<mapsto> JString ''ping''], ReadOk Map.empty,
      ReadOk [''type'' \<mapsto> JNumber ''1'', ''content'' \<mapsto> JString ''x''],
      ReadOk (prompt_msg ''hi'')] (net0, conn0) =
     (False,
      \<lparr>posted = [\<lparr>Model = ''llama2'', Prompt = ''hi'', Stream = True\<rparr>], opened = 1, released = 1\<rparr>,
      \<lparr>sent = [response_start, response_chunk ''Hel'', response_chunk ''lo'', response_end],
         closed = False\<rparr>) \<and>
   read_loop backend_Hello [ReadOk [''type'' \<mapsto> JString ''ping'']] (net0, conn0) =
     (False, net0, conn0)"
proof -
  let ?m1 = "[''type'' \<mapsto> JString ''ping'']"
  let ?m2 = "Map.empty :: string \<rightharpoonup> jvalue"
  let ?m3 = "[''type'' \<mapsto> JNumber ''1'', ''content'' \<mapsto> JString ''x'']"
  have h1: "?m1 ''type'' \<noteq> Some (JString ''message'')" by simp
  have h2: "?m2 ''type'' \<noteq> Some (JString ''message'')" by simp
  have h3: "?m3 ''type'' \<noteq> Some (JString ''message'')" by simp
  have e: "read_loop backend_Hello [ReadOk (prompt_msg ''hi'')] (net0, conn0) =
     (False,
      \<lparr>posted = [\<lparr>Model = ''llama2'', Prompt = ''hi'', Stream = True\<rparr>], opened = 1, released = 1\<rparr>,
      \<lparr>sent = [response_start, response_chunk ''Hel'', response_chunk ''lo'', response_end],
         closed = False\<rparr>)"
    by code_simp
  note s1 = C7_other_types_ignored [where msg = ?m1 and bk = backend_Hello, OF h1]
  note s2 = C7_other_types_ignored [where msg = ?m2 and bk = backend_Hello, OF h2]
  note s3 = C7_other_types_ignored [where msg = ?m3 and bk = backend_Hello, OF h3]
  have a: "read_loop backend_Hello [ReadOk ?m1, ReadOk ?m2, ReadOk ?m3, ReadOk (prompt_msg ''hi'')]
      (net0, conn0) = read_loop backend_Hello [ReadOk (prompt_msg ''hi'')] (net0, conn0)"
    by (simp only: s1 s2 s3)
  have b: "read_loop backend_Hello [ReadOk ?m1] (net0, conn0) = (False, net0, conn0)"
    by (subst s1) simp
  from h1 h2 h3 a b e show ?thesis by simp
qed

text \<open>
  C8. A failure of \<^verbatim>\<open>ReadJSON\<close> (a payload that does not decode) ends the read loop
  and the connection is closed: the session ends in the state it had after the frames
  read before, with the connection closed; no frame is written for the failed read, and
  the inbound frames after it are never read.
\<close>

theorem C8_read_error_ends_session:
  "handleWebSocket bk True (map ReadOk msgs @ ReadErr # rest) net =
     (case read_loop bk (map ReadOk msgs) (net, \<lparr>sent = [], closed = False\<rparr>) of
        (left, net', conn) \<Rightarrow> (net', Some (conn\<lparr>closed := True\<rparr>)))"
  by (simp add: handleWebSocket_def read_loop_prefix Close_def split: prod.splits)

theorem C8_read_error_ends_session_witness:
  "handleWebSocket backend_Hello True
     (map ReadOk [prompt_msg ''hi''] @ ReadErr # [ReadOk (prompt_msg ''late'')]) net0 =
     (\<lparr>posted = [\<lparr>Model = ''llama2'', Prompt = ''hi'', Stream = True\<rparr>], opened = 1, released = 1\<rparr>,
      Some \<lparr>sent = [response_start, response_chunk ''Hel'', response_chunk ''lo'', response_end],
         closed = True\<rparr>)"
proof -
  have e: "read_loop backend_Hello (map ReadOk [prompt_msg ''hi''])
      (net0, \<lparr>sent = [], closed = False\<rparr>) =
     (False,
      \<lparr>posted = [\<lparr>Model = ''llama2'', Prompt = ''hi'', Stream = True\<rparr>], opened = 1, released = 1\<rparr>,
      \<lparr>sent = [response_start, response_chunk ''Hel'', response_chunk ''lo'', response_end],
         closed = False\<rparr>)"
    by code_simp
  show ?thesis
    unfolding C8_read_error_ends_session [of backend_Hello "[prompt_msg ''hi'']"
        "[ReadOk (prompt_msg ''late'')]" net0] e
    by simp
qed

text \<open>
  C9. The claim: a frame of type \<^verbatim>\<open>message\<close> whose \<^verbatim>\<open>content\<close> is absent or no
  string is handled as the prompt \<^verbatim>\<open>""\<close>, and the full sequence
  (\<^verbatim>\<open>response_start\<close>, the call of the backend with the prompt \<^verbatim>\<open>""\<close>, the
  terminator) still runs. The program takes the empty prompt, writes
  \<^verbatim>\<open>response_start\<close> and calls the backend with it, but the terminator is missing
  when the body of the response ends with no object that has \<^verbatim>\<open>done=true\<close>, as for
  every prompt (C1): for a frame with no \<^verbatim>\<open>content\<close>, and for one whose
  \<^verbatim>\<open>content\<close> is the number 42, with the stream \<open>stream_cut\<close>, the session writes
  \<^verbatim>\<open>response_start\<close> and the chunk \<^verbatim>\<open>Hi\<close>, and no \<^verbatim>\<open>response_end\<close> follows before
  the connection is closed.
\<close>

theorem C9_empty_prompt_without_response_end:
  "handleWebSocket backend_cut True [ReadOk [''type'' \<mapsto> JString ''message''], ReadErr] net0 =
     (\<lparr>posted = [\<lparr>Model = ''llama2'', Prompt = [], Stream = True\<rparr>], opened = 1, released = 1\<rparr>,
      Some \<lparr>sent = [response_start, response_chunk ''Hi''], closed = True\<rparr>) \<and>
   handleWebSocket backend_cut True
       [ReadOk [''type'' \<mapsto> JString ''message'', ''content'' \<mapsto> JNumber ''42''], ReadErr] net0 =
     (\<lparr>posted = [\<lparr>Model = ''llama2'', Prompt = [], Stream = True\<rparr>], opened = 1, released = 1\<rparr>,
      Some \<lparr>sent = [response_start, response_chunk ''Hi''], closed = True\<rparr>)"
  by code_simp

text \<open>
  C10. After a successful \<^verbatim>\<open>http.Post\<close>, the body of the response is closed when
  \<^verbatim>\<open>queryOllamaStreaming\<close> returns, whatever the loop returns (the final fragment
  was read, the body was exhausted, or \<^verbatim>\<open>Decode\<close> failed): one body was handed out
  and one was closed.
\<close>

theorem C10_body_released:
  assumes "bk (length (posted net)) (request_for prompt) = Responded resp"
  shows "\<exists>err s'. queryOllamaStreaming bk prompt callback (net, s) =
     (err,
      net\<lparr>posted := posted net @ [request_for prompt], opened := opened net + 1,
          released := released net + 1\<rparr>,
      s')"
  using assms
  by (simp add: queryOllamaStreaming_def http_Post_def request_for_def Body_Close_def
           split: prod.splits)

theorem C10_body_released_witness:
  "queryOllamaStreaming backend_AB ''hi'' log_call (net0, []) =
     (None,
      \<lparr>posted = [\<lparr>Model = ''llama2'', Prompt = ''hi'', Stream = True\<rparr>], opened = 1, released = 1\<rparr>,
      [(''A'', False), (''B'', True)]) \<and>
   queryOllamaStreaming backend_cut ''hi'' log_call (net0, []) =
     (None,
      \<lparr>posted = [\<lparr>Model = ''llama2'', Prompt = ''hi'', Stream = True\<rparr>], opened = 1, released = 1\<rparr>,
      [(''Hi'', False)]) \<and>
   queryOllamaStreaming backend_bad ''hi'' log_call (net0, []) =
     (Some DecodeError,
      \<lparr>posted = [\<lparr>Model = ''llama2'', Prompt = ''hi'', Stream = True\<rparr>], opened = 1, released = 1\<rparr>,
      [(''A'', False)])"
proof -
  let ?net1 = "\<lparr>posted = [\<lparr>Model = ''llama2'', Prompt = ''hi'', Stream = True\<rparr>],
      opened = 1, released = 1\<rparr>"
  have n: "net0\<lparr>posted := posted net0 @ [request_for ''hi''], opened := opened net0 + 1,
      released := released net0 + 1\<rparr> = ?net1"
    by (simp add: net0_def request_for_def)
  have h1: "backend_AB (length (posted net0)) (request_for ''hi'') = ok_body stream_AB"
    by (simp add: backend_AB_def)
  have h2: "backend_cut (length (posted net0)) (request_for ''hi'') = ok_body stream_cut"
    by (simp add: backend_cut_def)
  have h3: "backend_bad (length (posted net0)) (request_for ''hi'') = ok_body stream_bad"
    by (simp add: backend_bad_def)
  have v1: "fst (queryOllamaStreaming backend_AB ''hi'' log_call (net0, [])) = None"
    "snd (snd (queryOllamaStreaming backend_AB ''hi'' log_call (net0, []))) =
       [(''A'', False), (''B'', True)]"
    by code_simp+
  have v2: "fst (queryOllamaStreaming backend_cut ''hi'' log_call (net0, [])) = None"
    "snd (snd (queryOllamaStreaming backend_cut ''hi'' log_call (net0, []))) = [(''Hi'', False)]"
    by code_simp+
  have v3: "fst (queryOllamaStreaming backend_bad ''hi'' log_call (net0, [])) = Some DecodeError"
    "snd (snd (queryOllamaStreaming backend_bad ''hi'' log_call (net0, []))) = [(''A'', False)]"
    by code_simp+
  from C10_body_released [where bk = backend_AB and net = net0 and prompt = "''hi''"
      and callback = log_call and s = "[]", OF h1 [unfolded ok_body_def]] n v1
  have a: "queryOllamaStreaming backend_AB ''hi'' log_call (net0, []) =
      (None, ?net1, [(''A'', False), (''B'', True)])" by auto
  from C10_body_released [where bk = backend_cut and net = net0 and prompt = "''hi''"
      and callback = log_call and s = "[]", OF h2 [unfolded ok_body_def]] n v2
  have b: "queryOllamaStreaming backend_cut ''hi'' log_call (net0, []) =
      (None, ?net1, [(''Hi'', False)])" by auto
  from C10_body_released [where bk = backend_bad and net = net0 and prompt = "''hi''"
      and callback = log_call and s = "[]", OF h3 [unfolded ok_body_def]] n v3
  have c: "queryOllamaStreaming backend_bad ''hi'' log_call (net0, []) =
      (Some DecodeError, ?net1, [(''A'', False)])" by auto
  from a b c show ?thesis by simp
qed

end
